theory Spec2Isabelle
  imports Complex_Main
begin

section \<open>Joint-space interpolation and path shortcutting of sbpl\_geometry\_utils\<close>

text \<open>
  The development embeds \<^verbatim>\<open>src/interpolation.cpp\<close> (\<^verbatim>\<open>NormalizeAnglesIntoRange\<close>,
  \<^verbatim>\<open>InterpolatePath\<close>) and the template \<^verbatim>\<open>ShortcutPath\<close>.

  Modelling conventions.
  \<^item> A \<^verbatim>\<open>double\<close> is the \<^typ>\<open>real\<close> it denotes. Every sum, difference, product and
    quotient of the source is rounded to the nearest binary64 number, ties to even
    (\<open>fadd\<close>, \<open>fsub\<close>, \<open>fmul\<close>, \<open>fdiv\<close>); comparisons, \<^verbatim>\<open>fabs\<close> and \<^verbatim>\<open>ceil\<close> are
    exact on doubles. There is no infinity and no NaN: magnitudes are assumed to stay
    below \<open>2^1024\<close>, and a division by zero is a branch of its own.
  \<^item> A \<^verbatim>\<open>std::vector\<close> is a list; sizes and the \<^verbatim>\<open>unsigned\<close> loop counters are
    natural numbers (vectors are assumed to hold fewer than \<open>2^31\<close> elements, so
    that the narrowing of \<^verbatim>\<open>size()\<close> to \<^verbatim>\<open>unsigned\<close> and the \<^verbatim>\<open>int\<close> counter of
    the second loop are exact).
  \<^item> An output parameter is an extra argument (its contents before the call) and
    an extra component of the result (its contents after the call).
  \<^item> A conversion of a \<^verbatim>\<open>double\<close> to \<^verbatim>\<open>int\<close> that C++ leaves undefined (value out
    of range, or the quotient of a division by zero) yields \<open>None\<close>.
  \<^item> The input vectors are not elements of the output container (no aliasing).
\<close>

subsection \<open>The constant \<^verbatim>\<open>M_PI\<close>\<close>

text \<open>
  \<^verbatim>\<open>M_PI\<close> comes from the C library. As a \<^verbatim>\<open>double\<close> it is the dyadic rational
  \<open>884279719003555 / 2^48\<close> (3.141592653589793...).
\<close>

definition M_PI :: real where
  "M_PI = 884279719003555 / 281474976710656"

subsection \<open>Arithmetic of \<^verbatim>\<open>double\<close>\<close>

text \<open>The number of binary digits of a natural number.\<close>

fun bit_length :: "nat \<Rightarrow> nat" where
  "bit_length n = (if n = 0 then 0 else Suc (bit_length (n div 2)))"

declare bit_length.simps [simp del]

text \<open>For \<open>0 < a\<close>, the integer \<open>e\<close> with \<open>2^e \<le> a < 2^(e+1)\<close>.\<close>

definition ilog2 :: "real \<Rightarrow> int" where
  "ilog2 a = (if 1 \<le> a then int (bit_length (nat \<lfloor>a\<rfloor>)) - 1
              else - int (bit_length (nat (\<lceil>1 / a\<rceil> - 1))))"

definition pow2 :: "int \<Rightarrow> real" where
  "pow2 e = (if 0 \<le> e then 2 ^ nat e else 1 / 2 ^ nat (- e))"

text \<open>The nearest integer, a tie going to the even one.\<close>

definition round_half_even :: "real \<Rightarrow> int" where
  "round_half_even y =
     (let f = \<lfloor>y\<rfloor>; r = y - of_int f
      in if r < 1 / 2 then f else if 1 / 2 < r then f + 1 else if even f then f else f + 1)"

text \<open>
  The binary64 number nearest to a real: 53 significant bits, and below \<open>2^(-1022)\<close>
  the fixed spacing \<open>2^(-1074)\<close> of the subnormal numbers.
\<close>

definition double_round :: "real \<Rightarrow> real" where
  "double_round x =
     (if x = 0 then 0
      else (let q = max (ilog2 \<bar>x\<bar>) (- 1022) - 52
            in of_int (round_half_even (x / pow2 q)) * pow2 q))"

definition fadd :: "real \<Rightarrow> real \<Rightarrow> real" where
  "fadd x y = double_round (x + y)"

definition fsub :: "real \<Rightarrow> real \<Rightarrow> real" where
  "fsub x y = double_round (x - y)"

definition fmul :: "real \<Rightarrow> real \<Rightarrow> real" where
  "fmul x y = double_round (x * y)"

text \<open>Used only with a divisor that is not zero.\<close>

definition fdiv :: "real \<Rightarrow> real \<Rightarrow> real" where
  "fdiv x y = double_round (x / y)"

subsection \<open>Scalar helpers declared in \<^verbatim>\<open>utils.h\<close>\<close>

text \<open>
  Modelled from the spec: \<^verbatim>\<open>NormalizeAngle\<close> is declared in \<^verbatim>\<open>utils.h\<close> but its body
  (\<^verbatim>\<open>utils.cpp\<close>) is not among the sources. The spec: it ``shifts angle by integer
  multiples of (max - min) into [min,max)''. The result is taken to be the double
  nearest to the shifted angle. When \<open>angle_max_rad = angle_min_rad\<close> (outside the
  documented precondition) the quotient is \<open>0\<close> in HOL and the angle is returned as it
  is.
\<close>

definition NormalizeAngle :: "real \<Rightarrow> real \<Rightarrow> real \<Rightarrow> real" where
  "NormalizeAngle angle_rad angle_min_rad angle_max_rad =
     double_round
       (angle_rad - of_int \<lfloor>(angle_rad - angle_min_rad) / (angle_max_rad - angle_min_rad)\<rfloor>
                      * (angle_max_rad - angle_min_rad))"

text \<open>
  Modelled from the spec: \<^verbatim>\<open>ShortestAngleDiff\<close> is declared in \<^verbatim>\<open>utils.h\<close>, its body is
  missing. The header: ``Return the shortest signed difference between two angles. The
  returned value is positive if to follow along the shortest angular path from a2 to a1,
  you have to move counter-clockwise''; the spec: ``signed difference in [-pi,pi]
  representing rotation from b to a along the minor arc''. So it is \<open>a1 - a2\<close> brought
  into the half-open full turn around zero, as a double.
\<close>

definition ShortestAngleDiff :: "real \<Rightarrow> real \<Rightarrow> real" where
  "ShortestAngleDiff a1_rad a2_rad = NormalizeAngle (a1_rad - a2_rad) (- M_PI) M_PI"

text \<open>
  Modelled from the spec: \<^verbatim>\<open>Sign\<close> is declared in \<^verbatim>\<open>utils.h\<close>, its body is missing. The
  spec: ``-1, 0, or 1''.
\<close>

definition Sign :: "real \<Rightarrow> int" where
  "Sign val = (if val < 0 then - 1 else if 0 < val then 1 else 0)"

subsection \<open>\<^verbatim>\<open>NormalizeAnglesIntoRange\<close> (interpolation.cpp, lines 17--41)\<close>

text \<open>The first loop: is some minimum above its maximum?\<close>

function check_limits :: "nat \<Rightarrow> nat \<Rightarrow> real list \<Rightarrow> real list \<Rightarrow> bool" where
  "check_limits i dim' min_limits max_limits =
     (if i < dim' then
        (if min_limits ! i > max_limits ! i then False
         else check_limits (i + 1) dim' min_limits max_limits)
      else True)"
  by pat_completeness auto
termination
  by (relation "measure (\<lambda>(i, dim', _). dim' - i)") auto

declare check_limits.simps [simp del]

text \<open>
  The second loop: each angle is overwritten in place, and the function returns
  at once when the new value is outside its limits.
\<close>

function normalize_loop ::
  "nat \<Rightarrow> nat \<Rightarrow> real list \<Rightarrow> real list \<Rightarrow> real list \<Rightarrow> bool \<times> real list" where
  "normalize_loop i dim' angles min_limits max_limits =
     (if i < dim' then
        (let min_angle_norm = NormalizeAngle (min_limits ! i) 0 (fmul 2 M_PI);
             angles' = angles[i := NormalizeAngle (angles ! i) (min_limits ! i) min_angle_norm]
         in if angles' ! i < min_limits ! i \<or> angles' ! i > max_limits ! i
            then (False, angles')
            else normalize_loop (i + 1) dim' angles' min_limits max_limits)
      else (True, angles))"
  by pat_completeness auto
termination
  by (relation "measure (\<lambda>(i, dim', _). dim' - i)") auto

declare normalize_loop.simps [simp del]

text \<open>The result is the returned flag and the contents of \<^verbatim>\<open>angles\<close> after the call.\<close>

definition NormalizeAnglesIntoRange ::
  "real list \<Rightarrow> real list \<Rightarrow> real list \<Rightarrow> bool \<times> real list" where
  "NormalizeAnglesIntoRange angles min_limits max_limits =
     (let dim' = length angles in
      if length min_limits \<noteq> dim' \<or> length max_limits \<noteq> dim' then (False, angles)
      else if \<not> check_limits 0 dim' min_limits max_limits then (False, angles)
      else normalize_loop 0 dim' angles min_limits max_limits)"

subsection \<open>\<^verbatim>\<open>InterpolatePath\<close> (interpolation.cpp, lines 73--174)\<close>

text \<open>Lines 103--114: the direction of travel of one joint.\<close>

definition travel_dir :: "bool \<Rightarrow> real \<Rightarrow> real \<Rightarrow> real \<Rightarrow> real \<Rightarrow> int" where
  "travel_dir continuous_i start_i end_i min_i max_i =
     (let angle_diff = ShortestAngleDiff end_i start_i
      in if continuous_i then Sign angle_diff
         else if fadd start_i angle_diff > max_i \<or> fadd start_i angle_diff < min_i
              then - Sign angle_diff
              else Sign angle_diff)"

text \<open>Lines 101--115: the loop that fills \<^verbatim>\<open>travel_dirs\<close>.\<close>

function travel_dirs_loop ::
  "nat \<Rightarrow> nat \<Rightarrow> real list \<Rightarrow> real list \<Rightarrow> real list \<Rightarrow> real list \<Rightarrow> bool list
     \<Rightarrow> int list \<Rightarrow> int list" where
  "travel_dirs_loop i dim' start_norm end_norm min_limits max_limits continuous_joints travel_dirs =
     (if i < dim' then
        travel_dirs_loop (i + 1) dim' start_norm end_norm min_limits max_limits continuous_joints
          (travel_dirs[i := travel_dir (continuous_joints ! i) (start_norm ! i) (end_norm ! i)
                              (min_limits ! i) (max_limits ! i)])
      else travel_dirs)"
  by pat_completeness auto
termination
  by (relation "measure (\<lambda>(i, dim', _). dim' - i)") auto

declare travel_dirs_loop.simps [simp del]

text \<open>
  The cast \<^verbatim>\<open>(int)\<close> of a \<^verbatim>\<open>double\<close> truncates towards zero and is defined only when
  the result fits a 32-bit \<^verbatim>\<open>int\<close>.
\<close>

definition double_to_int :: "real \<Rightarrow> int option" where
  "double_to_int x =
     (let t = (if x < 0 then \<lceil>x\<rceil> else \<lfloor>x\<rfloor>)
      in if - 2147483648 \<le> t \<and> t \<le> 2147483647 then Some t else None)"

text \<open>
  Lines 119--138: the number of iterations one joint asks for. A zero increment that
  reaches the division makes the quotient infinite or NaN, whose conversion to \<^verbatim>\<open>int\<close>
  is undefined.
\<close>

definition max_iters_for_angle ::
  "real \<Rightarrow> real \<Rightarrow> real \<Rightarrow> real \<Rightarrow> real \<Rightarrow> real \<Rightarrow> int option" where
  "max_iters_for_angle start_i end_i min_i max_i inc_i eps =
     (let angle_diff = ShortestAngleDiff end_i start_i;
          angle_dist = (if fadd start_i angle_diff > max_i \<or> fadd start_i angle_diff < min_i
                        then fsub (fmul 2 M_PI) \<bar>angle_diff\<bar>
                        else \<bar>angle_diff\<bar>)
      in if \<bar>fsub end_i start_i\<bar> < eps then Some 1
         else if \<bar>fsub end_i start_i\<bar> \<le> inc_i then Some 1
         else if inc_i = 0 then None
         else double_to_int (of_int \<lceil>fdiv angle_dist inc_i\<rceil>))"

text \<open>Lines 117--141: the running maximum over the joints, from 0.\<close>

function max_iterations_loop ::
  "nat \<Rightarrow> nat \<Rightarrow> real list \<Rightarrow> real list \<Rightarrow> real list \<Rightarrow> real list \<Rightarrow> real list \<Rightarrow> real
     \<Rightarrow> int \<Rightarrow> int option" where
  "max_iterations_loop i dim' start_norm end_norm min_limits max_limits inc eps max_iterations =
     (if i < dim' then
        (case max_iters_for_angle (start_norm ! i) (end_norm ! i) (min_limits ! i)
                (max_limits ! i) (inc ! i) eps of
           None \<Rightarrow> None
         | Some m \<Rightarrow>
             max_iterations_loop (i + 1) dim' start_norm end_norm min_limits max_limits inc eps
               (max max_iterations m))
      else Some max_iterations)"
  by pat_completeness auto
termination
  by (relation "measure (\<lambda>(i, dim', _). dim' - i)") auto

declare max_iterations_loop.simps [simp del]

text \<open>Lines 148--167: one waypoint step, joint by joint, on \<^verbatim>\<open>curr_cfg\<close>.\<close>

definition step_joint :: "real \<Rightarrow> real \<Rightarrow> real \<Rightarrow> real \<Rightarrow> real \<Rightarrow> int \<Rightarrow> real" where
  "step_joint curr_i end_i min_i max_i inc_i dir_i =
     (let anglediff = ShortestAngleDiff curr_i end_i;
          v1 = (if \<bar>anglediff\<bar> < inc_i then fadd curr_i anglediff
                else fadd curr_i (fmul (of_int dir_i) inc_i));
          v2 = (if v1 > max_i then fsub v1 (fmul 2 M_PI) else v1);
          v3 = (if v2 < min_i then fadd v2 (fmul 2 M_PI) else v2)
      in v3)"

function step_joints ::
  "nat \<Rightarrow> nat \<Rightarrow> real list \<Rightarrow> real list \<Rightarrow> real list \<Rightarrow> real list \<Rightarrow> int list
     \<Rightarrow> real list \<Rightarrow> real list" where
  "step_joints i dim' end_norm min_limits max_limits inc travel_dirs curr_cfg =
     (if i < dim' then
        step_joints (i + 1) dim' end_norm min_limits max_limits inc travel_dirs
          (curr_cfg[i := step_joint (curr_cfg ! i) (end_norm ! i) (min_limits ! i)
                           (max_limits ! i) (inc ! i) (travel_dirs ! i)])
      else curr_cfg)"
  by pat_completeness auto
termination
  by (relation "measure (\<lambda>(i, dim', _). dim' - i)") auto

declare step_joints.simps [simp del]

text \<open>Lines 146--171: \<^verbatim>\<open>max_iterations\<close> rounds, each appending the new waypoint.\<close>

function interpolate_loop ::
  "int \<Rightarrow> int \<Rightarrow> nat \<Rightarrow> real list \<Rightarrow> real list \<Rightarrow> real list \<Rightarrow> real list \<Rightarrow> int list
     \<Rightarrow> real list \<Rightarrow> real list list \<Rightarrow> real list list" where
  "interpolate_loop c max_iterations dim' end_norm min_limits max_limits inc travel_dirs
       curr_cfg path =
     (if c < max_iterations then
        (let curr_cfg' = step_joints 0 dim' end_norm min_limits max_limits inc travel_dirs curr_cfg
         in interpolate_loop (c + 1) max_iterations dim' end_norm min_limits max_limits inc
              travel_dirs curr_cfg' (path @ [curr_cfg']))
      else path)"
  by pat_completeness auto
termination
  by (relation "measure (\<lambda>(c, max_iterations, _). nat (max_iterations - c))") auto

declare interpolate_loop.simps [simp del]

text \<open>
  The eight-argument overload. The last argument is the caller's \<^verbatim>\<open>path\<close> before the
  call; the result is the returned flag with \<^verbatim>\<open>path\<close> after the call, or \<open>None\<close> when
  the step count is not a defined \<^verbatim>\<open>int\<close>.
\<close>

definition InterpolatePath ::
  "real list \<Rightarrow> real list \<Rightarrow> real list \<Rightarrow> real list \<Rightarrow> real list \<Rightarrow> bool list \<Rightarrow> real
     \<Rightarrow> real list list \<Rightarrow> (bool \<times> real list list) option" where
  "InterpolatePath start end' min_limits max_limits inc continuous_joints eps path0 =
     (let path = [];
          dim' = length start
      in if dim' \<noteq> length end' \<or> dim' \<noteq> length inc \<or> dim' \<noteq> length min_limits
            \<or> dim' \<noteq> length max_limits \<or> dim' \<noteq> length continuous_joints
         then Some (False, path)
         else
           (case NormalizeAnglesIntoRange start min_limits max_limits of
              (False, _) \<Rightarrow> Some (False, path)
            | (True, start_norm) \<Rightarrow>
                (case NormalizeAnglesIntoRange end' min_limits max_limits of
                   (False, _) \<Rightarrow> Some (False, path)
                 | (True, end_norm) \<Rightarrow>
                     (let travel_dirs =
                            travel_dirs_loop 0 dim' start_norm end_norm min_limits max_limits
                              continuous_joints (replicate dim' 0)
                      in case max_iterations_loop 0 dim' start_norm end_norm min_limits
                                max_limits inc eps 0 of
                           None \<Rightarrow> None
                         | Some max_iterations \<Rightarrow>
                             Some (True,
                               interpolate_loop 0 max_iterations dim' end_norm min_limits
                                 max_limits inc travel_dirs start_norm (path @ [start_norm]))))))"

subsection \<open>\<^verbatim>\<open>ShortcutPath\<close> (include/sbpl\_geometry\_utils/utils.h, lines 77--188)\<close>

text \<open>
  A path generator's \<^verbatim>\<open>generate_path(a, b, path, cost)\<close> either fails or fills in a
  path and a cost. The cost type supports \<open>0\<close>, \<open>+\<close> and \<open>-\<close>.
\<close>

type_synonym ('p, 'c) path_generator = "'p \<Rightarrow> 'p \<Rightarrow> ('p list \<times> 'c) option"

text \<open>Lines 101--105: accumulated original cost per point.\<close>

function accum_loop :: "nat \<Rightarrow> nat \<Rightarrow> 'c list \<Rightarrow> 'c list \<Rightarrow> ('c::{zero,plus,minus}) list" where
  "accum_loop i n orig_path_costs accum_point_costs =
     (if i < n then
        accum_loop (i + 1) n orig_path_costs
          (accum_point_costs[i := accum_point_costs ! (i - 1) + orig_path_costs ! (i - 1)])
      else accum_point_costs)"
  by pat_completeness auto
termination
  by (relation "measure (\<lambda>(i, n, _). n - i)") auto

declare accum_loop.simps [simp del]

text \<open>
  Lines 131--142: every generator in turn; the triple is \<^verbatim>\<open>cost_improved\<close>,
  \<^verbatim>\<open>best_path\<close>, \<^verbatim>\<open>best_cost\<close>. \<open>acc_end\<close> and \<open>acc_prev\<close> are
  \<^verbatim>\<open>accum_point_costs[end_index]\<close> and \<^verbatim>\<open>accum_point_costs[end_index - 1]\<close>.
\<close>

fun try_generators ::
  "('p, 'c::{zero,plus,minus}) path_generator list \<Rightarrow> ('c \<Rightarrow> 'c \<Rightarrow> bool) \<Rightarrow> 'p \<Rightarrow> 'p \<Rightarrow> 'c \<Rightarrow> 'c
     \<Rightarrow> bool \<times> 'p list \<times> 'c \<Rightarrow> bool \<times> 'p list \<times> 'c" where
  "try_generators [] leq p_start p_end acc_end acc_prev st = st"
| "try_generators (g # gs) leq p_start p_end acc_end acc_prev (cost_improved, best_path, best_cost) =
     (case g p_start p_end of
        None \<Rightarrow>
          try_generators gs leq p_start p_end acc_end acc_prev (cost_improved, best_path, best_cost)
      | Some (path, cost) \<Rightarrow>
          if leq cost (best_cost + acc_end - acc_prev)
          then try_generators gs leq p_start p_end acc_end acc_prev (True, path, cost)
          else try_generators gs leq p_start p_end acc_end acc_prev
                 (cost_improved, best_path, best_cost))"

text \<open>Lines 165--168 and 181--184: drop the shared end point, append the best path.\<close>

definition commit :: "'p list \<Rightarrow> 'p list \<Rightarrow> 'p list" where
  "commit result_traj best_path =
     (if result_traj \<noteq> [] then butlast result_traj else result_traj) @ best_path"

text \<open>
  The variables that live across rounds of the \<^verbatim>\<open>while\<close> loop. The three iterators
  are positions in \<^verbatim>\<open>orig_path\<close>; \<^verbatim>\<open>orig_path.end()\<close> is position \<open>length orig_path\<close>.
\<close>

record ('p, 'c) shortcut_state =
  result_traj :: "'p list"
  curr_start :: nat
  last_end :: nat
  curr_end :: nat
  start_index :: nat
  end_index :: nat
  best_path :: "'p list"
  best_cost :: 'c

text \<open>Lines 127--178: one round of the \<^verbatim>\<open>while\<close> loop.\<close>

definition shortcut_round ::
  "'p list \<Rightarrow> ('c::{zero,plus,minus}) list \<Rightarrow> ('p, 'c) path_generator list \<Rightarrow> nat
     \<Rightarrow> ('c \<Rightarrow> 'c \<Rightarrow> bool) \<Rightarrow> ('p, 'c) shortcut_state \<Rightarrow> ('p, 'c) shortcut_state" where
  "shortcut_round orig_path accum_point_costs path_generators granularity leq s =
     (case try_generators path_generators leq
             (orig_path ! curr_start s) (orig_path ! curr_end s)
             (accum_point_costs ! end_index s) (accum_point_costs ! (end_index s - 1))
             (False, best_path s, best_cost s) of
        (cost_improved, bp, bc) \<Rightarrow>
          if cost_improved then
            (let dist_to_end = length orig_path - curr_end s
             in if dist_to_end = 1 then
                  s\<lparr>curr_end := length orig_path, last_end := length orig_path - 1,
                    end_index := length orig_path, best_path := bp, best_cost := bc\<rparr>
                else if dist_to_end < granularity then
                  s\<lparr>curr_end := curr_end s + (dist_to_end - 1),
                    last_end := last_end s + (dist_to_end - 1),
                    end_index := end_index s + (dist_to_end - 1),
                    best_path := bp, best_cost := bc\<rparr>
                else
                  s\<lparr>curr_end := curr_end s + granularity,
                    last_end := last_end s + granularity,
                    end_index := end_index s + granularity,
                    best_path := bp, best_cost := bc\<rparr>)
          else
            s\<lparr>result_traj := commit (result_traj s) bp,
              curr_start := last_end s,
              start_index := end_index s - 1,
              best_path := [orig_path ! last_end s, orig_path ! curr_end s],
              best_cost := accum_point_costs ! end_index s
                             - accum_point_costs ! (end_index s - 1)\<rparr>)"

text \<open>
  Line 126: the \<^verbatim>\<open>while\<close> loop. Nothing in the source bounds the number of rounds, so
  the loop is a partial function: \<open>None\<close> means that it never exits.
\<close>

partial_function (option) shortcut_loop ::
  "'p list \<Rightarrow> ('c::{zero,plus,minus}) list \<Rightarrow> ('p, 'c) path_generator list \<Rightarrow> nat
     \<Rightarrow> ('c \<Rightarrow> 'c \<Rightarrow> bool) \<Rightarrow> ('p, 'c) shortcut_state \<Rightarrow> ('p, 'c) shortcut_state option" where
  "shortcut_loop orig_path accum_point_costs path_generators granularity leq s =
     (if curr_end s \<noteq> length orig_path then
        shortcut_loop orig_path accum_point_costs path_generators granularity leq
          (shortcut_round orig_path accum_point_costs path_generators granularity leq s)
      else Some s)"

text \<open>
  The function. \<open>shortcut_path\<close> is the caller's output container before the call; the
  result is the returned flag with the container after the call, or \<open>None\<close> when the
  call does not return.
\<close>

definition ShortcutPath ::
  "'p list \<Rightarrow> ('c::{zero,plus,minus}) list \<Rightarrow> ('p, 'c) path_generator list \<Rightarrow> 'p list
     \<Rightarrow> nat \<Rightarrow> nat \<Rightarrow> ('c \<Rightarrow> 'c \<Rightarrow> bool) \<Rightarrow> (bool \<times> 'p list) option" where
  "ShortcutPath orig_path orig_path_costs path_generators shortcut_path window granularity leq =
     (if length orig_path \<noteq> length orig_path_costs + 1 then Some (False, shortcut_path)
      else if length orig_path < 2 then Some (True, shortcut_path)
      else
        (let accum_point_costs =
               accum_loop 1 (length orig_path) orig_path_costs
                 ((replicate (length orig_path) 0)[0 := 0]);
             s0 = \<lparr>result_traj = [], curr_start = 0, last_end = 0, curr_end = 1,
                   start_index = 0, end_index = 1,
                   best_path = [orig_path ! 0, orig_path ! 1],
                   best_cost = accum_point_costs ! 1 - accum_point_costs ! 0\<rparr>
         in case shortcut_loop orig_path accum_point_costs path_generators granularity leq s0 of
              None \<Rightarrow> None
            | Some s \<Rightarrow> Some (True, commit (result_traj s) (best_path s))))"

subsection \<open>The spec's formulas, for comparison with the code\<close>

text \<open>
  The formulas of the spec are read in the arithmetic of the program: their sums,
  differences and quotients are those of \<^verbatim>\<open>double\<close>.

  Moving from \<open>start_i\<close> along the shortest arc, a signed rotation by \<open>shortest\<close>,
  crosses a limit when the far end of the arc is outside \<open>[min_i, max_i]\<close>.
\<close>

definition crosses_limit :: "real \<Rightarrow> real \<Rightarrow> real \<Rightarrow> real \<Rightarrow> bool" where
  "crosses_limit start_i shortest min_i max_i \<longleftrightarrow>
     fadd start_i shortest < min_i \<or> max_i < fadd start_i shortest"

text \<open>
  Spec, 4.2 step 1: ``If continuous, travel direction is the sign of that difference. If
  bounded, check whether moving along the shortest-arc direction would cross a limit; if
  so, reverse the travel direction''. The difference is the signed shortest difference
  from start to end.
\<close>

definition spec_travel_dir :: "bool \<Rightarrow> real \<Rightarrow> real \<Rightarrow> real \<Rightarrow> real \<Rightarrow> int" where
  "spec_travel_dir continuous_i start_i end_i min_i max_i =
     (let shortest = ShortestAngleDiff end_i start_i
      in if continuous_i then Sign shortest
         else if crosses_limit start_i shortest min_i max_i then - Sign shortest
         else Sign shortest)"

text \<open>
  Spec, 4.2 steps 2 and 3: the distance of a joint is ``the short-arc magnitude if legal,
  otherwise (full turn - short-arc magnitude)''; ``if the endpoint gap is below epsilon,
  or no larger than one increment, exactly one step suffices for that joint''; the total
  is the ``max over joints of ceil(distance / increment)''.
\<close>

definition spec_joint_steps :: "real \<Rightarrow> real \<Rightarrow> real \<Rightarrow> real \<Rightarrow> real \<Rightarrow> real \<Rightarrow> int" where
  "spec_joint_steps start_i end_i min_i max_i inc_i eps =
     (let shortest = ShortestAngleDiff end_i start_i;
          distance = (if crosses_limit start_i shortest min_i max_i
                      then fsub (fmul 2 M_PI) \<bar>shortest\<bar> else \<bar>shortest\<bar>);
          gap = \<bar>fsub end_i start_i\<bar>
      in if gap < eps \<or> gap \<le> inc_i then 1 else \<lceil>fdiv distance inc_i\<rceil>)"

definition spec_step_count ::
  "real list \<Rightarrow> real list \<Rightarrow> real list \<Rightarrow> real list \<Rightarrow> real list \<Rightarrow> real \<Rightarrow> int" where
  "spec_step_count start_norm end_norm min_limits max_limits inc eps =
     Max (set (map (\<lambda>j. spec_joint_steps (start_norm ! j) (end_norm ! j) (min_limits ! j)
                          (max_limits ! j) (inc ! j) eps) [0..<length start_norm]))"

section \<open>Auxiliary facts\<close>

subsection \<open>The direction of one joint\<close>

lemma travel_dir_spec:
  "travel_dir continuous_i start_i end_i min_i max_i
     = spec_travel_dir continuous_i start_i end_i min_i max_i"
  by (auto simp: travel_dir_def spec_travel_dir_def crosses_limit_def Let_def)

subsection \<open>Facts about the helper loops\<close>

lemma check_limits_iff:
  "check_limits i dim' min_limits max_limits
     \<longleftrightarrow> (\<forall>j. i \<le> j \<and> j < dim' \<longrightarrow> min_limits ! j \<le> max_limits ! j)"
proof (induction i dim' min_limits max_limits rule: check_limits.induct)
  case (1 i dim' min_limits max_limits)
  show ?case
  proof (cases "i < dim'")
    case False
    then show ?thesis by (simp add: check_limits.simps [of i])
  next
    case True
    show ?thesis
    proof (cases "min_limits ! i > max_limits ! i")
      case True
      with \<open>i < dim'\<close> show ?thesis
        by (auto simp: check_limits.simps [of i] not_le)
    next
      case False
      have "(\<forall>j. i \<le> j \<and> j < dim' \<longrightarrow> min_limits ! j \<le> max_limits ! j)
            \<longleftrightarrow> (\<forall>j. i + 1 \<le> j \<and> j < dim' \<longrightarrow> min_limits ! j \<le> max_limits ! j)"
        using False by (metis Suc_eq_plus1 Suc_leI le_eq_less_or_eq not_less Suc_leD)
      with "1.IH" [OF True False] True False show ?thesis
        by (simp add: check_limits.simps [of i])
    qed
  qed
qed

lemma normalize_loop_length:
  "normalize_loop i dim' angles min_limits max_limits = (ok, angles')
     \<Longrightarrow> length angles' = length angles"
proof (induction i dim' angles min_limits max_limits rule: normalize_loop.induct)
  case (1 i dim' angles min_limits max_limits)
  then show ?case
    by (subst (asm) (2) normalize_loop.simps) (auto simp: Let_def split: if_splits)
qed

lemma travel_dirs_loop_nth:
  "j < length travel_dirs \<Longrightarrow>
   travel_dirs_loop i dim' start_norm end_norm min_limits max_limits continuous_joints
       travel_dirs ! j =
     (if i \<le> j \<and> j < dim'
      then travel_dir (continuous_joints ! j) (start_norm ! j) (end_norm ! j)
             (min_limits ! j) (max_limits ! j)
      else travel_dirs ! j)"
proof (induction "dim' - i" arbitrary: i travel_dirs)
  case 0
  then show ?case by (subst travel_dirs_loop.simps) simp
next
  case (Suc k)
  then have lt: "i < dim'" and k: "k = dim' - (i + 1)" by simp_all
  let ?d = "travel_dir (continuous_joints ! i) (start_norm ! i) (end_norm ! i)
              (min_limits ! i) (max_limits ! i)"
  have len: "j < length (travel_dirs[i := ?d])" using Suc.prems by simp
  note IH = Suc.hyps(1) [OF k len]
  show ?case
  proof (cases "j = i")
    case True
    with lt Suc.prems IH show ?thesis
      by (subst travel_dirs_loop.simps) simp
  next
    case False
    with lt Suc.prems IH show ?thesis
      by (subst travel_dirs_loop.simps) auto
  qed
qed

lemma step_joints_length:
  "length (step_joints i dim' end_norm min_limits max_limits inc travel_dirs curr_cfg)
     = length curr_cfg"
proof (induction i dim' end_norm min_limits max_limits inc travel_dirs curr_cfg
        rule: step_joints.induct)
  case (1 i dim' end_norm min_limits max_limits inc travel_dirs curr_cfg)
  then show ?case by (subst step_joints.simps) simp
qed

lemma step_joints_nth:
  "j < length curr_cfg \<Longrightarrow>
   step_joints i dim' end_norm min_limits max_limits inc travel_dirs curr_cfg ! j =
     (if i \<le> j \<and> j < dim'
      then step_joint (curr_cfg ! j) (end_norm ! j) (min_limits ! j) (max_limits ! j) (inc ! j)
             (travel_dirs ! j)
      else curr_cfg ! j)"
proof (induction i dim' end_norm min_limits max_limits inc travel_dirs curr_cfg
        rule: step_joints.induct)
  case (1 i dim' end_norm min_limits max_limits inc travel_dirs curr_cfg)
  show ?case
  proof (cases "i < dim'")
    case False
    then show ?thesis by (subst step_joints.simps) simp
  next
    case True
    let ?v = "step_joint (curr_cfg ! i) (end_norm ! i) (min_limits ! i) (max_limits ! i)
                (inc ! i) (travel_dirs ! i)"
    have IH: "step_joints (i + 1) dim' end_norm min_limits max_limits inc travel_dirs
                (curr_cfg[i := ?v]) ! j =
              (if i + 1 \<le> j \<and> j < dim'
               then step_joint (curr_cfg[i := ?v] ! j) (end_norm ! j) (min_limits ! j)
                      (max_limits ! j) (inc ! j) (travel_dirs ! j)
               else curr_cfg[i := ?v] ! j)"
      using "1.IH" [OF True] "1.prems" by simp
    show ?thesis
    proof (cases "j = i")
      case True
      with \<open>i < dim'\<close> "1.prems" IH show ?thesis
        by (subst step_joints.simps) simp
    next
      case False
      with \<open>i < dim'\<close> "1.prems" IH show ?thesis
        by (subst step_joints.simps) auto
    qed
  qed
qed

lemma interpolate_loop_length:
  "length (interpolate_loop c max_iterations dim' end_norm min_limits max_limits inc travel_dirs
             curr_cfg path) = length path + nat (max_iterations - c)"
proof (induction c max_iterations dim' end_norm min_limits max_limits inc travel_dirs curr_cfg path
        rule: interpolate_loop.induct)
  case (1 c max_iterations dim' end_norm min_limits max_limits inc travel_dirs curr_cfg path)
  show ?case
  proof (cases "c < max_iterations")
    case False
    then show ?thesis by (subst interpolate_loop.simps) simp
  next
    case True
    show ?thesis
      using True "1.IH" [OF True refl]
      by (subst interpolate_loop.simps) (simp add: Let_def nat_diff_distrib)
  qed
qed

lemma interpolate_loop_prefix:
  "\<exists>rest. interpolate_loop c max_iterations dim' end_norm min_limits max_limits inc travel_dirs
             curr_cfg path = path @ rest"
proof (induction c max_iterations dim' end_norm min_limits max_limits inc travel_dirs curr_cfg path
        rule: interpolate_loop.induct)
  case (1 c max_iterations dim' end_norm min_limits max_limits inc travel_dirs curr_cfg path)
  show ?case
  proof (cases "c < max_iterations")
    case False
    then show ?thesis by (subst interpolate_loop.simps) simp
  next
    case True
    show ?thesis
      using True "1.IH" [OF True refl]
      by (subst interpolate_loop.simps) (auto simp: Let_def)
  qed
qed

lemma interpolate_loop_invariant:
  assumes "Q curr_cfg" and "\<forall>cfg \<in> set path. Q cfg"
    and "\<And>cfg. Q cfg \<Longrightarrow> Q (step_joints 0 dim' end_norm min_limits max_limits inc travel_dirs cfg)"
  shows "\<forall>cfg \<in> set (interpolate_loop c max_iterations dim' end_norm min_limits max_limits inc
                       travel_dirs curr_cfg path). Q cfg"
  using assms
proof (induction c max_iterations dim' end_norm min_limits max_limits inc travel_dirs curr_cfg path
        rule: interpolate_loop.induct)
  case (1 c max_iterations dim' end_norm min_limits max_limits inc travel_dirs curr_cfg path)
  show ?case
  proof (cases "c < max_iterations")
    case False
    with "1.prems"(2) show ?thesis by (subst interpolate_loop.simps) simp
  next
    case True
    let ?n = "step_joints 0 dim' end_norm min_limits max_limits inc travel_dirs curr_cfg"
    have q: "Q ?n" using "1.prems"(1,3) by blast
    have "\<forall>cfg \<in> set (path @ [?n]). Q cfg" using q "1.prems"(2) by simp
    from "1.IH" [OF True refl q this "1.prems"(3)] True
    show ?thesis by (subst interpolate_loop.simps) (simp add: Let_def)
  qed
qed

text \<open>Every point the loop appends is one step away from the point before it.\<close>

lemma interpolate_loop_consecutive:
  assumes "path \<noteq> []" and "last path = curr_cfg"
    and "length path \<le> k + 1"
    and "k + 1 < length (interpolate_loop c max_iterations dim' end_norm min_limits max_limits
                          inc travel_dirs curr_cfg path)"
  shows "interpolate_loop c max_iterations dim' end_norm min_limits max_limits inc travel_dirs
           curr_cfg path ! (k + 1)
         = step_joints 0 dim' end_norm min_limits max_limits inc travel_dirs
             (interpolate_loop c max_iterations dim' end_norm min_limits max_limits inc
                travel_dirs curr_cfg path ! k)"
  using assms
proof (induction c max_iterations dim' end_norm min_limits max_limits inc travel_dirs curr_cfg path
        rule: interpolate_loop.induct)
  case (1 c max_iterations dim' end_norm min_limits max_limits inc travel_dirs curr_cfg path)
  show ?case
  proof (cases "c < max_iterations")
    case False
    with "1.prems"(3,4) show ?thesis
      by (subst (asm) interpolate_loop.simps) simp
  next
    case True
    let ?n = "step_joints 0 dim' end_norm min_limits max_limits inc travel_dirs curr_cfg"
    let ?R = "interpolate_loop (c + 1) max_iterations dim' end_norm min_limits max_limits inc
                travel_dirs ?n (path @ [?n])"
    have unfold: "interpolate_loop c max_iterations dim' end_norm min_limits max_limits inc
                    travel_dirs curr_cfg path = ?R"
      using True by (subst interpolate_loop.simps) (simp add: Let_def)
    obtain rest where rest: "?R = (path @ [?n]) @ rest"
      using interpolate_loop_prefix by blast
    show ?thesis
    proof (cases "k + 1 = length path")
      case True
      then have k: "k = length path - 1" by simp
      have "?R ! (k + 1) = ?n"
        unfolding rest using True by (simp add: nth_append)
      moreover have "?R ! k = curr_cfg"
        unfolding rest using k "1.prems"(1,2) by (simp add: nth_append last_conv_nth)
      ultimately show ?thesis unfolding unfold by simp
    next
      case False
      with "1.prems"(3) have len: "length (path @ [?n]) \<le> k + 1" by simp
      have "?R ! (k + 1) = step_joints 0 dim' end_norm min_limits max_limits inc travel_dirs (?R ! k)"
        using "1.IH" [OF True refl _ _ len] "1.prems"(4) unfolding unfold by simp
      then show ?thesis unfolding unfold .
    qed
  qed
qed

subsection \<open>The step count and the shape of a successful call\<close>

lemma double_to_int_of_int: "double_to_int (of_int k) = Some m \<Longrightarrow> m = k"
  by (auto simp: double_to_int_def Let_def split: if_splits)

lemma max_iters_for_angle_spec:
  assumes "max_iters_for_angle start_i end_i min_i max_i inc_i eps = Some m"
  shows "m = spec_joint_steps start_i end_i min_i max_i inc_i eps"
  using assms
  by (auto simp: max_iters_for_angle_def spec_joint_steps_def crosses_limit_def Let_def
           dest!: double_to_int_of_int split: if_splits)

lemma Max_insert_max:
  "finite A \<Longrightarrow> Max (insert (max a b) A) = Max (insert a (insert b A))"
  by (cases "A = {}") (simp_all add: max.assoc)

lemma max_iterations_loop_Max:
  assumes "max_iterations_loop i dim' start_norm end_norm min_limits max_limits inc eps m0 = Some m"
  shows "m = Max (insert m0
               ((\<lambda>j. spec_joint_steps (start_norm ! j) (end_norm ! j) (min_limits ! j)
                        (max_limits ! j) (inc ! j) eps) ` {i..<dim'}))"
  using assms
proof (induction "dim' - i" arbitrary: i m0)
  case 0
  then show ?case by (subst (asm) max_iterations_loop.simps) simp
next
  case (Suc k)
  let ?f = "\<lambda>j. spec_joint_steps (start_norm ! j) (end_norm ! j) (min_limits ! j)
                    (max_limits ! j) (inc ! j) eps"
  from Suc.hyps(2) have lt: "i < dim'" and k: "k = dim' - (i + 1)" by simp_all
  from Suc.prems lt obtain q where
    q: "max_iters_for_angle (start_norm ! i) (end_norm ! i) (min_limits ! i) (max_limits ! i)
          (inc ! i) eps = Some q"
    and rec: "max_iterations_loop (i + 1) dim' start_norm end_norm min_limits max_limits inc eps
                (max m0 q) = Some m"
    by (subst (asm) max_iterations_loop.simps) (auto split: option.splits)
  from max_iters_for_angle_spec [OF q] have qf: "q = ?f i" .
  have "{i..<dim'} = insert i {i + 1..<dim'}" using lt by auto
  then have img: "?f ` {i..<dim'} = insert (?f i) (?f ` {i + 1..<dim'})" by simp
  from Suc.hyps(1) [OF k rec] have "m = Max (insert (max m0 q) (?f ` {i + 1..<dim'}))" .
  also have "\<dots> = Max (insert m0 (insert q (?f ` {i + 1..<dim'})))"
    by (rule Max_insert_max) simp
  finally show ?case unfolding img qf .
qed

lemma max_iterations_loop_ge:
  "max_iterations_loop i dim' start_norm end_norm min_limits max_limits inc eps m0 = Some m
     \<Longrightarrow> m0 \<le> m"
proof (induction "dim' - i" arbitrary: i m0)
  case 0
  then show ?case by (subst (asm) max_iterations_loop.simps) simp
next
  case (Suc k)
  from Suc.hyps(2) have lt: "i < dim'" and k: "k = dim' - (i + 1)" by simp_all
  from Suc.prems lt obtain q where
    "max_iterations_loop (i + 1) dim' start_norm end_norm min_limits max_limits inc eps
       (max m0 q) = Some m"
    by (subst (asm) max_iterations_loop.simps) (auto split: option.splits)
  from Suc.hyps(1) [OF k this] show ?case by simp
qed

lemma NormalizeAnglesIntoRange_length:
  "NormalizeAnglesIntoRange angles min_limits max_limits = (ok, angles')
     \<Longrightarrow> length angles' = length angles"
  by (auto simp: NormalizeAnglesIntoRange_def Let_def normalize_loop_length split: if_splits)

text \<open>What a successful call computed.\<close>

lemma InterpolatePath_success:
  assumes "InterpolatePath start end' min_limits max_limits inc continuous_joints eps path0
             = Some (True, path)"
  obtains start_norm end_norm max_iterations where
    "length end' = length start" "length inc = length start" "length min_limits = length start"
    "length max_limits = length start" "length continuous_joints = length start"
    "NormalizeAnglesIntoRange start min_limits max_limits = (True, start_norm)"
    "NormalizeAnglesIntoRange end' min_limits max_limits = (True, end_norm)"
    "max_iterations_loop 0 (length start) start_norm end_norm min_limits max_limits inc eps 0
       = Some max_iterations"
    "path = interpolate_loop 0 max_iterations (length start) end_norm min_limits max_limits inc
              (travel_dirs_loop 0 (length start) start_norm end_norm min_limits max_limits
                 continuous_joints (replicate (length start) 0))
              start_norm [start_norm]"
proof -
  have dims: "length end' = length start \<and> length inc = length start
        \<and> length min_limits = length start \<and> length max_limits = length start
        \<and> length continuous_joints = length start"
  proof (rule ccontr)
    assume "\<not> ?thesis"
    then have "InterpolatePath start end' min_limits max_limits inc continuous_joints eps path0
                 = Some (False, [])"
      by (auto simp: InterpolatePath_def Let_def)
    with assms show False by simp
  qed
  obtain b1 start_norm where sn: "NormalizeAnglesIntoRange start min_limits max_limits
       = (b1, start_norm)"
    by (cases "NormalizeAnglesIntoRange start min_limits max_limits")
  obtain b2 end_norm where en: "NormalizeAnglesIntoRange end' min_limits max_limits
       = (b2, end_norm)"
    by (cases "NormalizeAnglesIntoRange end' min_limits max_limits")
  have b1: b1
  proof (rule ccontr)
    assume "\<not> b1"
    with dims sn have "InterpolatePath start end' min_limits max_limits inc continuous_joints
                         eps path0 = Some (False, [])"
      by (simp add: InterpolatePath_def Let_def)
    with assms show False by simp
  qed
  have b2: b2
  proof (rule ccontr)
    assume "\<not> b2"
    with dims sn en b1 have "InterpolatePath start end' min_limits max_limits inc
                         continuous_joints eps path0 = Some (False, [])"
      by (simp add: InterpolatePath_def Let_def)
    with assms show False by simp
  qed
  from assms dims sn en b1 b2 obtain max_iterations where
    "max_iterations_loop 0 (length start) start_norm end_norm min_limits max_limits inc eps 0
       = Some max_iterations"
    "path = interpolate_loop 0 max_iterations (length start) end_norm min_limits max_limits inc
              (travel_dirs_loop 0 (length start) start_norm end_norm min_limits max_limits
                 continuous_joints (replicate (length start) 0))
              start_norm [start_norm]"
    by (auto simp: InterpolatePath_def Let_def split: option.splits)
  with dims sn en b1 b2 that show thesis by simp
qed

subsection \<open>The shortcutting loop without generators\<close>

lemma shortcut_round_no_generators:
  "curr_end (shortcut_round orig_path accum_point_costs [] granularity leq s) = curr_end s"
  by (simp add: shortcut_round_def)

lemma shortcut_loop_no_generators_aux:
  assumes "shortcut_loop orig_path accum_point_costs path_generators granularity leq s = Some y"
  shows "path_generators = [] \<longrightarrow> curr_end s = length orig_path"
proof (rule shortcut_loop.raw_induct
    [where P = "\<lambda>orig_path accum_point_costs path_generators granularity leq s y.
                  path_generators = [] \<longrightarrow> curr_end s = length orig_path", OF _ assms])
  fix loop :: "'a list \<Rightarrow> 'b list \<Rightarrow> ('a, 'b) path_generator list \<Rightarrow> nat
     \<Rightarrow> ('b \<Rightarrow> 'b \<Rightarrow> bool) \<Rightarrow> ('a, 'b) shortcut_state \<Rightarrow> ('a, 'b) shortcut_state option"
    and orig_path accum_point_costs path_generators granularity leq s y
  assume IH: "\<And>orig_path accum_point_costs path_generators granularity leq s y.
          loop orig_path accum_point_costs path_generators granularity leq s = Some y \<Longrightarrow>
          path_generators = [] \<longrightarrow> curr_end s = length orig_path"
    and step: "(if curr_end s \<noteq> length orig_path
        then loop orig_path accum_point_costs path_generators granularity leq
              (shortcut_round orig_path accum_point_costs path_generators granularity leq s)
        else Some s) = Some y"
  show "path_generators = [] \<longrightarrow> curr_end s = length orig_path"
  proof
    assume g: "path_generators = []"
    show "curr_end s = length orig_path"
    proof (rule ccontr)
      assume ne: "curr_end s \<noteq> length orig_path"
      with step have "loop orig_path accum_point_costs path_generators granularity leq
          (shortcut_round orig_path accum_point_costs path_generators granularity leq s) = Some y"
        by simp
      from IH [OF this] g
      have "curr_end (shortcut_round orig_path accum_point_costs [] granularity leq s)
              = length orig_path"
        by simp
      with ne show False by (simp add: shortcut_round_no_generators)
    qed
  qed
qed

lemma shortcut_loop_no_generators:
  assumes "curr_end s \<noteq> length orig_path"
  shows "shortcut_loop orig_path accum_point_costs [] granularity leq s = None"
proof (cases "shortcut_loop orig_path accum_point_costs [] granularity leq s")
  case None
  then show ?thesis .
next
  case (Some y)
  from shortcut_loop_no_generators_aux [OF this] assms show ?thesis by simp
qed

subsection \<open>Evaluation of the interpolation on concrete inputs\<close>

text \<open>
  A call is evaluated in stages: the two normalizations, the directions, the step count
  and the waypoints, each on literal arguments.
\<close>

lemma InterpolatePath_returns:
  assumes "length end' = length start" "length inc = length start"
    "length min_limits = length start" "length max_limits = length start"
    "length continuous_joints = length start"
    and "NormalizeAnglesIntoRange start min_limits max_limits = (True, start_norm)"
    and "NormalizeAnglesIntoRange end' min_limits max_limits = (True, end_norm)"
    and "travel_dirs_loop 0 (length start) start_norm end_norm min_limits max_limits
           continuous_joints (replicate (length start) 0) = travel_dirs"
    and "max_iterations_loop 0 (length start) start_norm end_norm min_limits max_limits inc eps 0
           = Some max_iterations"
    and "interpolate_loop 0 max_iterations (length start) end_norm min_limits max_limits inc
           travel_dirs start_norm [start_norm] = path"
  shows "InterpolatePath start end' min_limits max_limits inc continuous_joints eps path0
           = Some (True, path)"
  using assms by (simp add: InterpolatePath_def Let_def)

lemma interpolate_loop_step:
  "c < max_iterations \<Longrightarrow>
   interpolate_loop c max_iterations dim' end_norm min_limits max_limits inc travel_dirs
       curr_cfg path =
     interpolate_loop (c + 1) max_iterations dim' end_norm min_limits max_limits inc travel_dirs
       (step_joints 0 dim' end_norm min_limits max_limits inc travel_dirs curr_cfg)
       (path @ [step_joints 0 dim' end_norm min_limits max_limits inc travel_dirs curr_cfg])"
  by (subst interpolate_loop.simps) (simp add: Let_def)

lemma interpolate_loop_stop:
  "\<not> c < max_iterations \<Longrightarrow>
   interpolate_loop c max_iterations dim' end_norm min_limits max_limits inc travel_dirs
       curr_cfg path = path"
  by (subst interpolate_loop.simps) simp

lemma bit_length_0: "bit_length 0 = 0"
  by (simp add: bit_length.simps)

lemma bit_length_pos: "0 < n \<Longrightarrow> bit_length n = Suc (bit_length (n div 2))"
  by (subst bit_length.simps) simp

lemmas scalar_eval =
  NormalizeAngle_def ShortestAngleDiff_def M_PI_def Sign_def Let_def
  fadd_def fsub_def fmul_def fdiv_def double_round_def ilog2_def pow2_def round_half_even_def
  bit_length_0 bit_length_pos

lemmas normalize_eval = NormalizeAnglesIntoRange_def check_limits.simps normalize_loop.simps

lemma InterpolatePath_first_point:
  assumes "InterpolatePath start end' min_limits max_limits inc continuous_joints eps path0
             = Some (True, path)"
  shows "path \<noteq> [] \<and> hd path = snd (NormalizeAnglesIntoRange start min_limits max_limits)"
proof -
  from assms obtain start_norm end_norm max_iterations where
    sn: "NormalizeAnglesIntoRange start min_limits max_limits = (True, start_norm)"
    and path: "path = interpolate_loop 0 max_iterations (length start) end_norm min_limits
                 max_limits inc
                 (travel_dirs_loop 0 (length start) start_norm end_norm min_limits max_limits
                    continuous_joints (replicate (length start) 0))
                 start_norm [start_norm]"
    by (rule InterpolatePath_success)
  from interpolate_loop_prefix [of 0 max_iterations "length start" end_norm min_limits
        max_limits inc _ start_norm "[start_norm]"] path
  obtain rest where "path = [start_norm] @ rest" by blast
  with sn show ?thesis by simp
qed

section \<open>The claims\<close>

subsection \<open>C1: end points and length of the interpolated path\<close>

text \<open>
  C1. For every call to \<^verbatim>\<open>InterpolatePath\<close> that returns success, the first point of the
  output path is the normalized start, the last point is the normalized end within
  epsilon, and the path has the step count plus one points.

  The first point and the length are as claimed (\<open>InterpolatePath_first_point\<close>,
  \<open>interpolate_loop_length\<close>). The last point is not: line 149 asks for
  \<^verbatim>\<open>ShortestAngleDiff(curr_cfg[i], end_norm[i])\<close>, the rotation from the end to the
  current value, and line 153 adds it to the current value, so the final correction
  doubles the remaining gap instead of closing it. Line 103 has the arguments in the
  other order, \<^verbatim>\<open>ShortestAngleDiff(end_norm[i], start_norm[i])\<close>, and adds the result to
  the start to find where the arc ends; the two uses cannot both be right, whichever
  sign the helper returns. At start 0, end 1/4, increment 1/2 and limits
  \<open>[-M_PI, M_PI]\<close> the call succeeds with the path 0, -1/4, while the normalized end is
  1/4.
\<close>

theorem InterpolatePath_last_point_misses_end:
  "InterpolatePath [0] [1 / 4] [- M_PI] [M_PI] [1 / 2] [False] (1 / 1000000) []
     = Some (True, [[0], [- 1 / 4]])
   \<and> NormalizeAnglesIntoRange [1 / 4] [- M_PI] [M_PI] = (True, [1 / 4])"
proof
  show "InterpolatePath [0] [1 / 4] [- M_PI] [M_PI] [1 / 2] [False] (1 / 1000000) []
     = Some (True, [[0], [- 1 / 4]])"
  proof (rule InterpolatePath_returns)
    show "NormalizeAnglesIntoRange [0] [- M_PI] [M_PI] = (True, [0])"
      by (simp add: normalize_eval scalar_eval cong: let_weak_cong)
    show "NormalizeAnglesIntoRange [1 / 4] [- M_PI] [M_PI] = (True, [1 / 4])"
      by (simp add: normalize_eval scalar_eval cong: let_weak_cong)
    show "travel_dirs_loop 0 (length [0 :: real]) [0] [1 / 4] [- M_PI] [M_PI] [False]
            (replicate (length [0 :: real]) 0) = [1]"
      by (simp add: travel_dirs_loop.simps travel_dir_def scalar_eval cong: let_weak_cong)
    show "max_iterations_loop 0 (length [0 :: real]) [0] [1 / 4] [- M_PI] [M_PI] [1 / 2]
            (1 / 1000000) 0 = Some 1"
      by (simp add: max_iterations_loop.simps max_iters_for_angle_def double_to_int_def scalar_eval
            cong: let_weak_cong)
    show "interpolate_loop 0 1 (length [0 :: real]) [1 / 4] [- M_PI] [M_PI] [1 / 2] [1] [0]
            [[0]] = [[0], [- 1 / 4]]"
      by (simp add: interpolate_loop_step interpolate_loop_stop step_joints.simps step_joint_def
            scalar_eval cong: let_weak_cong)
  qed simp_all
  show "NormalizeAnglesIntoRange [1 / 4] [- M_PI] [M_PI] = (True, [1 / 4])"
    by (simp add: normalize_eval scalar_eval cong: let_weak_cong)
qed

text \<open>The last point and the normalized end are more than epsilon apart.\<close>

theorem InterpolatePath_last_point_misses_end_witness:
  "1 / 1000000 <
     \<bar>last (snd (the (InterpolatePath [0] [1 / 4] [- M_PI] [M_PI] [1 / 2] [False]
                         (1 / 1000000) []))) ! 0
      - snd (NormalizeAnglesIntoRange [1 / 4] [- M_PI] [M_PI]) ! 0\<bar>"
  using InterpolatePath_last_point_misses_end by simp

subsection \<open>C2: joint values and joint limits\<close>

text \<open>
  C2. For every call to \<^verbatim>\<open>InterpolatePath\<close> that returns success, every joint value of
  every configuration in the output path lies within that joint's \<open>[min, max]\<close>,
  including for joints flagged continuous.

  The code breaks this on a bounded joint, through the terminal correction of lines
  149--153 that points away from the end (see C1). With limits \<open>[-1, 1]\<close>, start 7/8,
  end 1/2 and increment 1/2 the only step adds the remaining gap 3/8 to 7/8 instead of
  subtracting it; the result 5/4 is above the maximum, and the wrap of lines 161--166
  (one full turn down, then one full turn up) returns to 5/4.
\<close>

theorem InterpolatePath_bounded_joint_leaves_limits:
  "InterpolatePath [7 / 8] [1 / 2] [- 1] [1] [1 / 2] [False] (1 / 1000000) []
     = Some (True, [[7 / 8], [5 / 4]])"
proof (rule InterpolatePath_returns)
  show "NormalizeAnglesIntoRange [7 / 8] [- 1] [1] = (True, [7 / 8])"
    by (simp add: normalize_eval scalar_eval cong: let_weak_cong)
  show "NormalizeAnglesIntoRange [1 / 2] [- 1] [1] = (True, [1 / 2])"
    by (simp add: normalize_eval scalar_eval cong: let_weak_cong)
  show "travel_dirs_loop 0 (length [7 / 8 :: real]) [7 / 8] [1 / 2] [- 1] [1] [False]
          (replicate (length [7 / 8 :: real]) 0) = [- 1]"
    by (simp add: travel_dirs_loop.simps travel_dir_def scalar_eval cong: let_weak_cong)
  show "max_iterations_loop 0 (length [7 / 8 :: real]) [7 / 8] [1 / 2] [- 1] [1] [1 / 2]
          (1 / 1000000) 0 = Some 1"
    by (simp add: max_iterations_loop.simps max_iters_for_angle_def double_to_int_def scalar_eval
          cong: let_weak_cong)
  show "interpolate_loop 0 1 (length [7 / 8 :: real]) [1 / 2] [- 1] [1] [1 / 2] [- 1] [7 / 8]
          [[7 / 8]] = [[7 / 8], [5 / 4]]"
    by (simp add: interpolate_loop_step interpolate_loop_stop step_joints.simps step_joint_def
          scalar_eval cong: let_weak_cong)
qed simp_all

text \<open>The second configuration is above the joint's maximum.\<close>

theorem InterpolatePath_bounded_joint_leaves_limits_witness:
  "[1 :: real] ! 0
     < snd (the (InterpolatePath [7 / 8] [1 / 2] [- 1] [1] [1 / 2] [False] (1 / 1000000) []))
         ! 1 ! 0"
  using InterpolatePath_bounded_joint_leaves_limits by simp

subsection \<open>C3: shortcutting without generators\<close>

text \<open>
  C3. For every path of length at least 2 with matching segment costs, \<^verbatim>\<open>ShortcutPath\<close>
  with an empty generator collection returns success with the unmodified original path.

  The code does not return on any such input. With no generator \<^verbatim>\<open>cost_improved\<close>
  stays false, so every round takes the commit branch (lines 164--178), which moves
  \<^verbatim>\<open>curr_start\<close> but neither \<^verbatim>\<open>curr_end\<close> nor \<^verbatim>\<open>last_end\<close>; the loop test of line 126
  stays true, and \<^verbatim>\<open>result_traj\<close> grows by one point per round.
\<close>

theorem ShortcutPath_no_generators_never_returns:
  assumes "length orig_path = length orig_path_costs + 1" and "2 \<le> length orig_path"
  shows "ShortcutPath orig_path orig_path_costs [] shortcut_path window granularity leq = None"
  using assms
  by (cases orig_path_costs) (simp_all add: ShortcutPath_def Let_def shortcut_loop_no_generators)

text \<open>A path of two points with its one cost.\<close>

theorem ShortcutPath_no_generators_never_returns_witness:
  "length [10, 20 :: int] = length [4 :: int] + 1 \<and> 2 \<le> length [10, 20 :: int]
   \<and> ShortcutPath [10, 20 :: int] [4 :: int] [] [] 3 1 (\<le>) = None"
proof -
  have h1: "length [10, 20 :: int] = length [4 :: int] + 1" by simp
  have h2: "2 \<le> length [10, 20 :: int]" by simp
  from ShortcutPath_no_generators_never_returns [OF h1 h2] h1 h2 show ?thesis by blast
qed

subsection \<open>C4: shortcutting a trivial path\<close>

text \<open>
  C4. For every input path of length less than 2 with a matching (empty) cost series,
  \<^verbatim>\<open>ShortcutPath\<close> returns success and its output path equals the input path.

  A path shorter than 2 with a matching cost series has one point and no cost. The code
  returns success at line 97 before anything is written to \<^verbatim>\<open>shortcut_path\<close> (the only
  assignment is at line 186), so the output keeps what the caller had in it, whatever
  the point is.
\<close>

theorem ShortcutPath_single_point_output_untouched:
  "ShortcutPath [p] [] path_generators shortcut_path window granularity leq
     = Some (True, shortcut_path)"
  by (simp add: ShortcutPath_def)

text \<open>The one-point path \<open>[5]\<close> and an output container that held \<open>[7, 7]\<close>.\<close>

theorem ShortcutPath_single_point_output_untouched_witness:
  "ShortcutPath [5 :: int] ([] :: int list) [] [7, 7] 3 1 (\<le>) = Some (True, [7, 7])
   \<and> [7, 7] \<noteq> [5 :: int]"
  using ShortcutPath_single_point_output_untouched [of "5 :: int" "[]" "[7, 7]" 3 1 "(\<le>)"]
  by simp

subsection \<open>C5: the number of interpolation steps\<close>

text \<open>
  C5, as amended. In every successful \<^verbatim>\<open>InterpolatePath\<close> call the number of
  interpolation steps (the points of the path after the first) is 0 when there are no
  joints, and otherwise the larger of 0 and the maximum over all joints of
  \<open>ceil (distance / increment)\<close>, where the distance is the short-arc magnitude if the
  short arc stays inside the joint's limits and the full turn minus that magnitude
  otherwise, and where a joint whose end-point gap is below epsilon or no larger than its
  increment contributes exactly one step. Distance, gap and quotient are those of the
  program's \<^verbatim>\<open>double\<close> arithmetic.
\<close>

theorem InterpolatePath_step_count:
  assumes "InterpolatePath start end' min_limits max_limits inc continuous_joints eps path0
             = Some (True, path)"
  shows "int (length path) - 1 =
           (if start = [] then 0
            else max 0 (spec_step_count (snd (NormalizeAnglesIntoRange start min_limits max_limits))
                          (snd (NormalizeAnglesIntoRange end' min_limits max_limits))
                          min_limits max_limits inc eps))"
proof -
  from assms obtain start_norm end_norm max_iterations where
    sn: "NormalizeAnglesIntoRange start min_limits max_limits = (True, start_norm)"
    and en: "NormalizeAnglesIntoRange end' min_limits max_limits = (True, end_norm)"
    and mi: "max_iterations_loop 0 (length start) start_norm end_norm min_limits max_limits inc eps 0
       = Some max_iterations"
    and path: "path = interpolate_loop 0 max_iterations (length start) end_norm min_limits
                 max_limits inc
                 (travel_dirs_loop 0 (length start) start_norm end_norm min_limits max_limits
                    continuous_joints (replicate (length start) 0))
                 start_norm [start_norm]"
    by (rule InterpolatePath_success)
  let ?f = "\<lambda>j. spec_joint_steps (start_norm ! j) (end_norm ! j) (min_limits ! j)
                    (max_limits ! j) (inc ! j) eps"
  have ge: "0 \<le> max_iterations" using max_iterations_loop_ge [OF mi] .
  have len: "int (length path) - 1 = max_iterations"
    unfolding path interpolate_loop_length using ge by simp
  from max_iterations_loop_Max [OF mi]
  have m: "max_iterations = Max (insert 0 (?f ` {0..<length start}))" .
  have lsn: "length start_norm = length start"
    using NormalizeAnglesIntoRange_length [OF sn] .
  show ?thesis
  proof (cases "start = []")
    case True
    with m len show ?thesis by simp
  next
    case False
    then have ne: "?f ` {0..<length start} \<noteq> {}" by simp
    have "max_iterations = max 0 (Max (?f ` {0..<length start}))"
      unfolding m using ne by simp
    with len False show ?thesis
      by (simp add: spec_step_count_def sn en lsn)
  qed
qed

text \<open>
  From 0 to the double nearest 0.9, with the double nearest 0.3 as increment: the
  quotient of the two doubles is above 3 and rounds to 3, and the path has three steps.
\<close>

theorem InterpolatePath_step_count_witness:
  "InterpolatePath [0] [8106479329266893 / 9007199254740992] [- M_PI] [M_PI]
       [5404319552844595 / 18014398509481984] [False] (1 / 1000000) []
     = Some (True,
         [[0], [5404319552844595 / 18014398509481984], [5404319552844595 / 9007199254740992],
          [2026619832316723 / 2251799813685248]])
   \<and> int (length [[0], [5404319552844595 / 18014398509481984],
                    [5404319552844595 / 9007199254740992],
                    [2026619832316723 / 2251799813685248 :: real]]) - 1 = 3
   \<and> spec_step_count [0] [8106479329266893 / 9007199254740992] [- M_PI] [M_PI]
       [5404319552844595 / 18014398509481984] (1 / 1000000) = 3
   \<and> int (length [[0], [5404319552844595 / 18014398509481984],
                    [5404319552844595 / 9007199254740992],
                    [2026619832316723 / 2251799813685248 :: real]]) - 1
       = (if [0 :: real] = [] then 0
          else max 0 (spec_step_count (snd (NormalizeAnglesIntoRange [0] [- M_PI] [M_PI]))
                        (snd (NormalizeAnglesIntoRange [8106479329266893 / 9007199254740992]
                                [- M_PI] [M_PI]))
                        [- M_PI] [M_PI] [5404319552844595 / 18014398509481984] (1 / 1000000)))"
proof -
  have ok: "InterpolatePath [0] [8106479329266893 / 9007199254740992] [- M_PI] [M_PI] [5404319552844595 / 18014398509481984] [False] (1 / 1000000) []
         = Some (True, [[0], [5404319552844595 / 18014398509481984], [5404319552844595 / 9007199254740992],
              [2026619832316723 / 2251799813685248]])"
  proof (rule InterpolatePath_returns)
    show "NormalizeAnglesIntoRange [0] [- M_PI] [M_PI] = (True, [0])"
      by (simp add: normalize_eval scalar_eval cong: let_weak_cong)
    show "NormalizeAnglesIntoRange [8106479329266893 / 9007199254740992] [- M_PI] [M_PI] = (True, [8106479329266893 / 9007199254740992])"
      by (simp add: normalize_eval scalar_eval cong: let_weak_cong)
    show "travel_dirs_loop 0 (length [0 :: real]) [0] [8106479329266893 / 9007199254740992] [- M_PI] [M_PI] [False]
            (replicate (length [0 :: real]) 0) = [1]"
      by (simp add: travel_dirs_loop.simps travel_dir_def scalar_eval cong: let_weak_cong)
    show "max_iterations_loop 0 (length [0 :: real]) [0] [8106479329266893 / 9007199254740992] [- M_PI] [M_PI] [5404319552844595 / 18014398509481984]
            (1 / 1000000) 0 = Some 3"
      by (simp add: max_iterations_loop.simps max_iters_for_angle_def double_to_int_def scalar_eval
            cong: let_weak_cong)
    show "interpolate_loop 0 3 (length [0 :: real]) [8106479329266893 / 9007199254740992] [- M_PI] [M_PI] [5404319552844595 / 18014398509481984] [1] [0]
            [[0]] = [[0], [5404319552844595 / 18014398509481984], [5404319552844595 / 9007199254740992],
            [2026619832316723 / 2251799813685248]]"
      by (simp add: interpolate_loop_step interpolate_loop_stop step_joints.simps step_joint_def
            scalar_eval cong: let_weak_cong)
  qed simp_all
  have len: "int (length [[0], [5404319552844595 / 18014398509481984],
                    [5404319552844595 / 9007199254740992],
                    [2026619832316723 / 2251799813685248 :: real]]) - 1 = 3"
    by simp
  have "spec_joint_steps 0 (8106479329266893 / 9007199254740992) (- M_PI) M_PI
          (5404319552844595 / 18014398509481984) (1 / 1000000) = 3"
    by (simp add: spec_joint_steps_def crosses_limit_def scalar_eval cong: let_weak_cong)
  then have spec: "spec_step_count [0] [8106479329266893 / 9007199254740992] [- M_PI] [M_PI]
                     [5404319552844595 / 18014398509481984] (1 / 1000000) = 3"
    by (simp add: spec_step_count_def)
  from InterpolatePath_step_count [OF ok] ok len spec show ?thesis by blast
qed

text \<open>
  Without the lower bound 0 the statement fails: the running maximum of line 117 starts
  at 0. With the increment -1/2 the only joint asks for \<open>ceil (1 / (-1/2)) = -2\<close> steps
  and the call succeeds with no step at all.
\<close>

theorem InterpolatePath_step_count_counterexample:
  "InterpolatePath [0] [1] [- M_PI] [M_PI] [- 1 / 2] [False] (1 / 1000000) []
     = Some (True, [[0]])
   \<and> NormalizeAnglesIntoRange [0] [- M_PI] [M_PI] = (True, [0])
   \<and> NormalizeAnglesIntoRange [1] [- M_PI] [M_PI] = (True, [1])
   \<and> spec_step_count [0] [1] [- M_PI] [M_PI] [- 1 / 2] (1 / 1000000) = - 2
   \<and> int (length [[0 :: real]]) - 1
       \<noteq> spec_step_count [0] [1] [- M_PI] [M_PI] [- 1 / 2] (1 / 1000000)"
proof -
  have ok: "InterpolatePath [0] [1] [- M_PI] [M_PI] [- 1 / 2] [False] (1 / 1000000) []
         = Some (True, [[0]])"
  proof (rule InterpolatePath_returns)
    show "NormalizeAnglesIntoRange [0] [- M_PI] [M_PI] = (True, [0])"
      by (simp add: normalize_eval scalar_eval cong: let_weak_cong)
    show "NormalizeAnglesIntoRange [1] [- M_PI] [M_PI] = (True, [1])"
      by (simp add: normalize_eval scalar_eval cong: let_weak_cong)
    show "travel_dirs_loop 0 (length [0 :: real]) [0] [1] [- M_PI] [M_PI] [False]
            (replicate (length [0 :: real]) 0) = [1]"
      by (simp add: travel_dirs_loop.simps travel_dir_def scalar_eval cong: let_weak_cong)
    show "max_iterations_loop 0 (length [0 :: real]) [0] [1] [- M_PI] [M_PI] [- 1 / 2]
            (1 / 1000000) 0 = Some 0"
      by (simp add: max_iterations_loop.simps max_iters_for_angle_def double_to_int_def scalar_eval
            cong: let_weak_cong)
    show "interpolate_loop 0 0 (length [0 :: real]) [1] [- M_PI] [M_PI] [- 1 / 2] [1] [0]
            [[0]] = [[0]]"
      by (simp add: interpolate_loop_step interpolate_loop_stop step_joints.simps step_joint_def
            scalar_eval cong: let_weak_cong)
  qed simp_all
  have n1: "NormalizeAnglesIntoRange [0] [- M_PI] [M_PI] = (True, [0])"
    by (simp add: normalize_eval scalar_eval cong: let_weak_cong)
  have n2: "NormalizeAnglesIntoRange [1] [- M_PI] [M_PI] = (True, [1])"
    by (simp add: normalize_eval scalar_eval cong: let_weak_cong)
  have "spec_joint_steps 0 1 (- M_PI) M_PI (- 1 / 2) (1 / 1000000) = - 2"
    by (simp add: spec_joint_steps_def crosses_limit_def scalar_eval cong: let_weak_cong)
  then have steps: "spec_step_count [0] [1] [- M_PI] [M_PI] [- 1 / 2] (1 / 1000000) = - 2"
    by (simp add: spec_step_count_def)
  from ok n1 n2 steps show ?thesis by simp
qed

subsection \<open>C6: the direction of travel\<close>

text \<open>
  C6. In every successful \<^verbatim>\<open>InterpolatePath\<close> call the travel direction of each joint
  is: for a continuous joint, the sign of the signed shortest angular difference from the
  normalized start to the normalized end; for a bounded joint, that sign unless moving
  along the shortest arc would leave the joint's \<open>[min, max]\<close>, in which case it is the
  opposite sign.

  The direction shows in the output: every point of the path after the first comes from
  the point before it by the step of lines 149--166, taken for each joint with exactly
  this direction.
\<close>

theorem InterpolatePath_travel_direction:
  assumes ok: "InterpolatePath start end' min_limits max_limits inc continuous_joints eps path0
             = Some (True, path)"
    and sn: "NormalizeAnglesIntoRange start min_limits max_limits = (True, start_norm)"
    and en: "NormalizeAnglesIntoRange end' min_limits max_limits = (True, end_norm)"
    and i: "i < length start"
    and k: "k + 1 < length path"
  shows "path ! (k + 1) ! i
         = step_joint (path ! k ! i) (end_norm ! i) (min_limits ! i) (max_limits ! i) (inc ! i)
             (spec_travel_dir (continuous_joints ! i) (start_norm ! i) (end_norm ! i)
                (min_limits ! i) (max_limits ! i))"
proof -
  from ok obtain start_norm' end_norm' max_iterations where
    sn': "NormalizeAnglesIntoRange start min_limits max_limits = (True, start_norm')"
    and en': "NormalizeAnglesIntoRange end' min_limits max_limits = (True, end_norm')"
    and path': "path = interpolate_loop 0 max_iterations (length start) end_norm' min_limits
                 max_limits inc
                 (travel_dirs_loop 0 (length start) start_norm' end_norm' min_limits max_limits
                    continuous_joints (replicate (length start) 0))
                 start_norm' [start_norm']"
    by (rule InterpolatePath_success)
  from sn sn' en en' have same: "start_norm' = start_norm" "end_norm' = end_norm" by simp_all
  define n where "n = length start"
  define travel_dirs where
    "travel_dirs = travel_dirs_loop 0 n start_norm end_norm min_limits max_limits
                     continuous_joints (replicate n 0)"
  have path: "path = interpolate_loop 0 max_iterations n end_norm min_limits max_limits inc
                       travel_dirs start_norm [start_norm]"
    using path' unfolding same n_def travel_dirs_def .
  have dir: "travel_dirs ! i = spec_travel_dir (continuous_joints ! i) (start_norm ! i)
               (end_norm ! i) (min_limits ! i) (max_limits ! i)"
    unfolding travel_dirs_def using i by (simp add: n_def travel_dirs_loop_nth travel_dir_spec)
  have len0: "length start_norm = n"
    using NormalizeAnglesIntoRange_length [OF sn] by (simp add: n_def)
  have "\<forall>c \<in> set path. length c = n"
    unfolding path
    by (rule interpolate_loop_invariant) (simp_all add: len0 step_joints_length)
  moreover have "path ! k \<in> set path" using k by simp
  ultimately have lk: "i < length (path ! k)" using i by (simp add: n_def)
  have "path ! (k + 1) = step_joints 0 n end_norm min_limits max_limits inc travel_dirs (path ! k)"
    unfolding path
    by (rule interpolate_loop_consecutive) (use k in \<open>simp_all add: path\<close>)
  then have "path ! (k + 1) ! i
      = step_joint (path ! k ! i) (end_norm ! i) (min_limits ! i) (max_limits ! i) (inc ! i)
          (travel_dirs ! i)"
    using step_joints_nth [OF lk, of 0 n] i by (simp add: n_def)
  then show ?thesis unfolding dir .
qed

text \<open>
  A bounded joint with limits \<open>[-3, 3]\<close> from 2 to -2: the short arc runs through
  \<open>M_PI\<close> and would leave the limits, so the direction is reversed and the path is 2, 0,
  -2.
\<close>

theorem InterpolatePath_travel_direction_witness:
  "InterpolatePath [2] [- 2] [- 3] [3] [2] [False] (1 / 1000000) [] = Some (True, [[2], [0], [- 2]])
   \<and> NormalizeAnglesIntoRange [2] [- 3] [3] = (True, [2])
   \<and> NormalizeAnglesIntoRange [- 2] [- 3] [3] = (True, [- 2])
   \<and> (0 :: nat) < length [2 :: real]
   \<and> (0 :: nat) + 1 < length [[2], [0], [- 2 :: real]]
   \<and> spec_travel_dir False 2 (- 2) (- 3) 3 = - 1
   \<and> [[2], [0], [- 2 :: real]] ! (0 + 1) ! 0
       = step_joint ([[2], [0], [- 2 :: real]] ! 0 ! 0) ([- 2] ! 0) ([- 3] ! 0) ([3] ! 0) ([2] ! 0)
           (spec_travel_dir ([False] ! 0) ([2] ! 0) ([- 2] ! 0) ([- 3] ! 0) ([3] ! 0))"
proof -
  have ok: "InterpolatePath [2] [- 2] [- 3] [3] [2] [False] (1 / 1000000) []
         = Some (True, [[2], [0], [- 2]])"
  proof (rule InterpolatePath_returns)
    show "NormalizeAnglesIntoRange [2] [- 3] [3] = (True, [2])"
      by (simp add: normalize_eval scalar_eval cong: let_weak_cong)
    show "NormalizeAnglesIntoRange [- 2] [- 3] [3] = (True, [- 2])"
      by (simp add: normalize_eval scalar_eval cong: let_weak_cong)
    show "travel_dirs_loop 0 (length [2 :: real]) [2] [- 2] [- 3] [3] [False]
            (replicate (length [2 :: real]) 0) = [- 1]"
      by (simp add: travel_dirs_loop.simps travel_dir_def scalar_eval cong: let_weak_cong)
    show "max_iterations_loop 0 (length [2 :: real]) [2] [- 2] [- 3] [3] [2]
            (1 / 1000000) 0 = Some 2"
      by (simp add: max_iterations_loop.simps max_iters_for_angle_def double_to_int_def scalar_eval
            cong: let_weak_cong)
    show "interpolate_loop 0 2 (length [2 :: real]) [- 2] [- 3] [3] [2] [- 1] [2]
            [[2]] = [[2], [0], [- 2]]"
      by (simp add: interpolate_loop_step interpolate_loop_stop step_joints.simps step_joint_def
            scalar_eval cong: let_weak_cong)
  qed simp_all
  have n1: "NormalizeAnglesIntoRange [2] [- 3] [3] = (True, [2])"
    by (simp add: normalize_eval scalar_eval cong: let_weak_cong)
  have n2: "NormalizeAnglesIntoRange [- 2] [- 3] [3] = (True, [- 2])"
    by (simp add: normalize_eval scalar_eval cong: let_weak_cong)
  have i: "(0 :: nat) < length [2 :: real]" by simp
  have k: "(0 :: nat) + 1 < length [[2], [0], [- 2 :: real]]" by simp
  have d: "spec_travel_dir False 2 (- 2) (- 3) 3 = - 1"
    by (simp add: spec_travel_dir_def crosses_limit_def scalar_eval cong: let_weak_cong)
  from InterpolatePath_travel_direction [OF ok n1 n2 i k] ok n1 n2 i k d
  show ?thesis by blast
qed

subsection \<open>C7: mismatched dimensions\<close>

text \<open>
  C7, as amended. For every input where the six vectors (start, end, minimum limits,
  maximum limits, increments, continuous flags) do not all share the same dimension,
  \<^verbatim>\<open>InterpolatePath\<close> returns failure and the output path is empty: it was cleared at
  line 78, before the dimensions are compared.
\<close>

theorem InterpolatePath_dimension_mismatch:
  assumes "\<not> (length end' = length start \<and> length min_limits = length start
              \<and> length max_limits = length start \<and> length inc = length start
              \<and> length continuous_joints = length start)"
  shows "InterpolatePath start end' min_limits max_limits inc continuous_joints eps path0
           = Some (False, [])"
  using assms by (auto simp: InterpolatePath_def Let_def)

text \<open>A start of three joints against an end of two.\<close>

theorem InterpolatePath_dimension_mismatch_witness:
  "\<not> (length [0, 0 :: real] = length [0, 0, 0 :: real]
      \<and> length [- M_PI, - M_PI, - M_PI] = length [0, 0, 0 :: real]
      \<and> length [M_PI, M_PI, M_PI] = length [0, 0, 0 :: real]
      \<and> length [1 / 2, 1 / 2, 1 / 2 :: real] = length [0, 0, 0 :: real]
      \<and> length [False, False, False] = length [0, 0, 0 :: real])
   \<and> InterpolatePath [0, 0, 0] [0, 0] [- M_PI, - M_PI, - M_PI] [M_PI, M_PI, M_PI]
       [1 / 2, 1 / 2, 1 / 2] [False, False, False] (1 / 1000000) [[1, 2, 3]]
     = Some (False, [])"
proof -
  have h: "\<not> (length [0, 0 :: real] = length [0, 0, 0 :: real]
      \<and> length [- M_PI, - M_PI, - M_PI] = length [0, 0, 0 :: real]
      \<and> length [M_PI, M_PI, M_PI] = length [0, 0, 0 :: real]
      \<and> length [1 / 2, 1 / 2, 1 / 2 :: real] = length [0, 0, 0 :: real]
      \<and> length [False, False, False] = length [0, 0, 0 :: real])"
    by simp
  from InterpolatePath_dimension_mismatch [OF h] h show ?thesis by blast
qed

text \<open>On the same input the output path does not keep its contents.\<close>

theorem InterpolatePath_dimension_mismatch_counterexample:
  "InterpolatePath [0, 0, 0] [0, 0] [- M_PI, - M_PI, - M_PI] [M_PI, M_PI, M_PI]
       [1 / 2, 1 / 2, 1 / 2] [False, False, False] (1 / 1000000) [[1, 2, 3]]
     \<noteq> Some (False, [[1, 2, 3]])"
  by (simp add: InterpolatePath_def Let_def)

subsection \<open>C8: a malformed cost series\<close>

text \<open>
  C8. For every input where the number of segment costs does not equal the path length
  minus one, \<^verbatim>\<open>ShortcutPath\<close> returns failure and the output path is what it was.
\<close>

theorem ShortcutPath_cost_count_mismatch:
  assumes "int (length orig_path_costs) \<noteq> int (length orig_path) - 1"
  shows "ShortcutPath orig_path orig_path_costs path_generators shortcut_path window granularity leq
           = Some (False, shortcut_path)"
  using assms by (auto simp: ShortcutPath_def)

text \<open>Two costs for a path of two points.\<close>

theorem ShortcutPath_cost_count_mismatch_witness:
  "int (length [4, 5 :: int]) \<noteq> int (length [10, 20 :: int]) - 1
   \<and> ShortcutPath [10, 20 :: int] [4, 5 :: int] [\<lambda>a b. Some ([a, b], 0)] [7, 7] 3 1 (\<le>)
       = Some (False, [7, 7])"
proof -
  have h: "int (length [4, 5 :: int]) \<noteq> int (length [10, 20 :: int]) - 1" by simp
  from ShortcutPath_cost_count_mismatch [OF h] h show ?thesis by blast
qed

subsection \<open>C9: a rejected call of \<^verbatim>\<open>NormalizeAnglesIntoRange\<close> leaves the angles alone\<close>

text \<open>
  C9. Whenever \<^verbatim>\<open>NormalizeAnglesIntoRange\<close> returns false because the three vectors
  differ in length, or because some minimum limit exceeds the corresponding maximum
  limit, the angles vector is exactly what was passed in: both checks come before the
  first write.
\<close>

theorem NormalizeAnglesIntoRange_rejected_unchanged:
  assumes "length min_limits \<noteq> length angles \<or> length max_limits \<noteq> length angles
           \<or> (\<exists>i < length angles. min_limits ! i > max_limits ! i)"
  shows "NormalizeAnglesIntoRange angles min_limits max_limits = (False, angles)"
proof (cases "length min_limits \<noteq> length angles \<or> length max_limits \<noteq> length angles")
  case True
  then show ?thesis by (auto simp: NormalizeAnglesIntoRange_def)
next
  case False
  with assms obtain i where "i < length angles" "min_limits ! i > max_limits ! i"
    by blast
  then have "\<not> check_limits 0 (length angles) min_limits max_limits"
    by (auto simp: check_limits_iff not_le intro!: exI [of _ i])
  with False show ?thesis by (simp add: NormalizeAnglesIntoRange_def)
qed

text \<open>A minimum limit above its maximum.\<close>

theorem NormalizeAnglesIntoRange_rejected_unchanged_witness:
  "(\<exists>i < length [1 / 2, 7 :: real]. [1, 0 :: real] ! i > [0, 8] ! i)
   \<and> NormalizeAnglesIntoRange [1 / 2, 7] [1, 0] [0, 8] = (False, [1 / 2, 7])"
proof -
  have e: "\<exists>i < length [1 / 2, 7 :: real]. [1, 0 :: real] ! i > [0, 8] ! i"
    by (intro exI [of _ 0]) simp
  then have h: "length [1, 0 :: real] \<noteq> length [1 / 2, 7 :: real]
      \<or> length [0, 8 :: real] \<noteq> length [1 / 2, 7 :: real]
      \<or> (\<exists>i < length [1 / 2, 7 :: real]. [1, 0 :: real] ! i > [0, 8] ! i)"
    by blast
  from e NormalizeAnglesIntoRange_rejected_unchanged [OF h] show ?thesis by blast
qed

subsection \<open>C10: the output path after a failed interpolation\<close>

text \<open>
  C10. \<^verbatim>\<open>InterpolatePath\<close> clears the caller's output path before any validation, so
  whenever it returns failure (dimension mismatch, invalid limits, or a start or an end
  that cannot be normalized) the output path is the empty sequence, whatever it held
  before.
\<close>

theorem InterpolatePath_failure_clears_path:
  assumes "InterpolatePath start end' min_limits max_limits inc continuous_joints eps path0
             = Some (False, path)"
  shows "path = []"
proof (rule ccontr)
  assume ne: "path \<noteq> []"
  have "InterpolatePath start end' min_limits max_limits inc continuous_joints eps path0
          \<noteq> Some (False, path)"
    using ne
    by (auto simp: InterpolatePath_def Let_def
             split: if_splits prod.splits bool.splits option.splits)
  with assms show False by simp
qed

text \<open>Invalid limits, with an output path that held two points.\<close>

theorem InterpolatePath_failure_clears_path_witness:
  "InterpolatePath [2] [0] [1] [0] [1 / 2] [False] (1 / 1000000) [[9, 9], [8]]
     = Some (False, snd (the (InterpolatePath [2] [0] [1] [0] [1 / 2] [False] (1 / 1000000)
                                [[9, 9], [8]])))
   \<and> snd (the (InterpolatePath [2] [0] [1] [0] [1 / 2] [False] (1 / 1000000) [[9, 9], [8]])) = []"
proof -
  have h: "InterpolatePath [2] [0] [1] [0] [1 / 2] [False] (1 / 1000000) [[9, 9], [8]]
     = Some (False, snd (the (InterpolatePath [2] [0] [1] [0] [1 / 2] [False] (1 / 1000000)
                                [[9, 9], [8]])))"
    by (simp add: InterpolatePath_def normalize_eval)
  from InterpolatePath_failure_clears_path [OF h] h show ?thesis by blast
qed

end
